theory Spec2Isabelle
  imports Main "HOL-Library.Char_ord" "HOL-Library.List_Lexorder" "HOL-Library.Product_Lexorder"
begin

section \<open>The Python values and exceptions the package touches\<close>

text \<open>
  The repository holds two Python files: the package module
  \<^verbatim>\<open>pyvtschooldata/pyvtschooldata/__init__.py\<close> and the test module
  \<^verbatim>\<open>tests/test_pyvtschooldata.py\<close>. The package module only imports four names
  from its submodule \<^verbatim>\<open>core\<close> and binds two constants; the tests only import the package
  and look at its attributes. The model therefore needs Python objects up to what
  \<^verbatim>\<open>hasattr\<close>, \<^verbatim>\<open>callable\<close> and \<^verbatim>\<open>isinstance(_, str)\<close> can tell apart.

  The behaviour of a function object is the type parameter \<open>'f\<close>: nothing in the two files
  calls a function, so the model never needs to look inside one.
\<close>

datatype 'f pyobj =
    PyNone
  | PyStr string
  | PyList "'f pyobj list"
  | PyFunc 'f
  | PyModule string "string \<Rightarrow> 'f pyobj option"

type_synonym 'f namespace = "string \<Rightarrow> 'f pyobj option"

text \<open>
  \<open>ModuleNotFoundError\<close> is a subclass of \<open>ImportError\<close> in Python; \<open>ImportError n m\<close> is
  "cannot import name n from m".
\<close>

datatype pyerror =
    ModuleNotFoundError string
  | ImportError string string
  | AssertionError
  | AttributeError string
  | OtherError string

fun is_ImportError :: "pyerror \<Rightarrow> bool" where
  "is_ImportError (ModuleNotFoundError _) = True"
| "is_ImportError (ImportError _ _) = True"
| "is_ImportError _ = False"

fun is_not_None :: "'f pyobj \<Rightarrow> bool" where
  "is_not_None PyNone = False"
| "is_not_None _ = True"

text \<open>Only module attributes are looked up in the two files.\<close>

fun py_hasattr :: "'f pyobj \<Rightarrow> string \<Rightarrow> bool" where
  "py_hasattr (PyModule _ d) a = (case d a of None \<Rightarrow> False | Some _ \<Rightarrow> True)"
| "py_hasattr _ a = False"

fun py_getattr :: "'f pyobj \<Rightarrow> string \<Rightarrow> pyerror + 'f pyobj" where
  "py_getattr (PyModule _ d) a = (case d a of None \<Rightarrow> Inl (AttributeError a) | Some v \<Rightarrow> Inr v)"
| "py_getattr _ a = Inl (AttributeError a)"

fun py_callable :: "'f pyobj \<Rightarrow> bool" where
  "py_callable (PyFunc _) = True"
| "py_callable _ = False"

fun isinstance_str :: "'f pyobj \<Rightarrow> bool" where
  "isinstance_str (PyStr _) = True"
| "isinstance_str _ = False"

definition py_assert :: "bool \<Rightarrow> pyerror + unit" where
  "py_assert b = (if b then Inr () else Inl AssertionError)"

section \<open>The repository's files\<close>

text \<open>
  The two files, as their lines. \<open>unlines_py\<close> ends every line with a newline character;
  the last line of the test module has none in the repository, so it is appended bare.
\<close>

definition newline :: char where
  "newline = CHR 0x0A"

definition unlines_py :: "string list \<Rightarrow> string" where
  "unlines_py ls = concat (map (\<lambda>l. l @ [newline]) ls)"

definition init_py :: string where
  "init_py = unlines_py
    [ ''\"\"\"'',
      ''pyvtschooldata - Python wrapper for Vermont school enrollment data.'',
      '''',
      ''Thin rpy2 wrapper around the vtschooldata R package.'',
      ''Returns pandas DataFrames.'',
      ''\"\"\"'',
      '''',
      ''from .core import ('',
      ''    fetch_enr,'',
      ''    fetch_enr_multi,'',
      ''    tidy_enr,'',
      ''    get_available_years,'',
      '')'',
      '''',
      ''__version__ = \"0.1.0\"'',
      ''__all__ = [\"fetch_enr\", \"fetch_enr_multi\", \"tidy_enr\", \"get_available_years\"]'',
      '''' ]"

definition test_pyvtschooldata_py :: string where
  "test_pyvtschooldata_py = unlines_py
    [ ''\"\"\"'',
      ''Tests for pyvtschooldata Python wrapper.'',
      '''',
      ''Minimal smoke tests - the actual data logic is tested by R testthat.'',
      ''These just verify the Python wrapper imports and exposes expected functions.'',
      ''\"\"\"'',
      '''',
      ''import pytest'',
      '''',
      '''',
      ''def test_import_package():'',
      ''    \"\"\"Package imports successfully.\"\"\"'',
      ''    import pyvtschooldata'',
      ''    assert pyvtschooldata is not None'',
      '''',
      '''',
      ''def test_has_fetch_enr():'',
      ''    \"\"\"fetch_enr function is available.\"\"\"'',
      ''    import pyvtschooldata'',
      ''    assert hasattr(pyvtschooldata, 'fetch_enr')'',
      ''    assert callable(pyvtschooldata.fetch_enr)'',
      '''',
      '''',
      ''def test_has_get_available_years():'',
      ''    \"\"\"get_available_years function is available.\"\"\"'',
      ''    import pyvtschooldata'',
      ''    assert hasattr(pyvtschooldata, 'get_available_years')'',
      ''    assert callable(pyvtschooldata.get_available_years)'',
      '''',
      '''',
      ''def test_has_version():'',
      ''    \"\"\"Package has a version string.\"\"\"'',
      ''    import pyvtschooldata'',
      ''    assert hasattr(pyvtschooldata, '__version__')'' ]
    @ ''    assert isinstance(pyvtschooldata.__version__, str)''"

definition repository :: "(string \<times> string) list" where
  "repository =
    [ (''pyvtschooldata/pyvtschooldata/__init__.py'', init_py),
      (''tests/test_pyvtschooldata.py'', test_pyvtschooldata_py) ]"

text \<open>
  The lines of a text as Python's \<^verbatim>\<open>str.splitlines\<close> gives them for a text whose only
  line break is the newline character: a last line counts whether or not a newline ends it,
  and a final newline opens no further line.
\<close>

fun splitlines_from :: "string \<Rightarrow> string \<Rightarrow> string list" where
  "splitlines_from cur [] = (if cur = [] then [] else [cur])"
| "splitlines_from cur (c # cs) =
     (if c = newline then cur # splitlines_from [] cs else splitlines_from (cur @ [c]) cs)"

definition splitlines :: "string \<Rightarrow> string list" where
  "splitlines s = splitlines_from [] s"

definition line_count :: "(string \<times> string) list \<Rightarrow> nat" where
  "line_count files = sum_list (map (\<lambda>(path, content). length (splitlines content)) files)"

section \<open>Importing the package\<close>

text \<open>
  \<^verbatim>\<open>from .core import (...)\<close> first imports the submodule \<^verbatim>\<open>pyvtschooldata.core\<close>.
  The finder looks among the installed files for \<^verbatim>\<open>core.py\<close> or a package directory
  \<^verbatim>\<open>core/__init__.py\<close> beside the package's \<^verbatim>\<open>__init__.py\<close>; when there is none the
  import raises \<open>ModuleNotFoundError\<close>. Executing a submodule that is found is the
  parameter \<open>load\<close>: it raises or gives the submodule's namespace.
\<close>

type_synonym 'f loader = "string \<Rightarrow> pyerror + 'f namespace"

definition package_dir :: string where
  "package_dir = ''pyvtschooldata/pyvtschooldata/''"

definition find_submodule :: "string list \<Rightarrow> string \<Rightarrow> bool" where
  "find_submodule files name =
     (package_dir @ name @ ''.py'' \<in> set files \<or>
      package_dir @ name @ ''/__init__.py'' \<in> set files)"

definition import_submodule ::
  "string list \<Rightarrow> 'f loader \<Rightarrow> string \<Rightarrow> pyerror + 'f namespace" where
  "import_submodule files load name =
     (if find_submodule files name then load name
      else Inl (ModuleNotFoundError (''pyvtschooldata.'' @ name)))"

text \<open>
  Each imported name is read from the submodule's namespace and bound in the importing
  namespace, in the order written; a name the submodule lacks raises \<open>ImportError\<close>.
\<close>

fun bind_names ::
  "string \<Rightarrow> 'f namespace \<Rightarrow> string list \<Rightarrow> 'f namespace \<Rightarrow> pyerror + 'f namespace" where
  "bind_names m src [] d = Inr d"
| "bind_names m src (n # ns) d =
     (case src n of
        None \<Rightarrow> Inl (ImportError n m)
      | Some v \<Rightarrow> bind_names m src ns (d(n \<mapsto> v)))"

text \<open>A submodule that was imported is also bound, under its name, in the package.\<close>

definition import_from ::
  "string list \<Rightarrow> 'f loader \<Rightarrow> string \<Rightarrow> string list \<Rightarrow> 'f namespace \<Rightarrow> pyerror + 'f namespace" where
  "import_from files load sub names d =
     (case import_submodule files load sub of
        Inl e \<Rightarrow> Inl e
      | Inr src \<Rightarrow>
          bind_names (''pyvtschooldata.'' @ sub) src names
            (d(sub \<mapsto> PyModule (''pyvtschooldata.'' @ sub) src)))"

text \<open>
  The inbound call surface as the specification lists it, to compare the module's namespace
  and its \<^verbatim>\<open>__all__\<close> with.
\<close>

definition inbound_call_surface :: "string list" where
  "inbound_call_surface =
     [''fetch_enr'', ''fetch_enr_multi'', ''tidy_enr'', ''get_available_years'']"

definition module_doc :: string where
  "module_doc = concat (map (\<lambda>l. l @ [newline])
     [ '''',
       ''pyvtschooldata - Python wrapper for Vermont school enrollment data.'',
       '''',
       ''Thin rpy2 wrapper around the vtschooldata R package.'',
       ''Returns pandas DataFrames.'' ])"

text \<open>
  The namespace a module's body starts in: its name and its docstring (the first statement
  of \<^verbatim>\<open>__init__.py\<close>).
\<close>

definition initial_namespace :: "'f namespace" where
  "initial_namespace =
     [''__name__'' \<mapsto> PyStr ''pyvtschooldata'', ''__doc__'' \<mapsto> PyStr module_doc]"

text \<open>
  The body of \<^verbatim>\<open>__init__.py\<close>, statement by statement: the from-import,
  \<^verbatim>\<open>__version__\<close> and \<^verbatim>\<open>__all__\<close>. The result is the module object, or the exception
  that the import statement raised.
\<close>

definition pyvtschooldata_init :: "string list \<Rightarrow> 'f loader \<Rightarrow> pyerror + 'f pyobj" where
  "pyvtschooldata_init files load =
     (case import_from files load ''core''
             [''fetch_enr'', ''fetch_enr_multi'', ''tidy_enr'', ''get_available_years'']
             initial_namespace of
        Inl e \<Rightarrow> Inl e
      | Inr d1 \<Rightarrow>
          let d2 = d1(''__version__'' \<mapsto> PyStr ''0.1.0'');
              d3 = d2(''__all__'' \<mapsto>
                     PyList [PyStr ''fetch_enr'', PyStr ''fetch_enr_multi'',
                             PyStr ''tidy_enr'', PyStr ''get_available_years''])
          in Inr (PyModule ''pyvtschooldata'' d3))"

text \<open>
  \<^verbatim>\<open>import pyvtschooldata\<close> in a test: the package is found when its \<^verbatim>\<open>__init__.py\<close>
  is installed, and its body runs. (A module that was imported is cached and one that failed
  is run again; the body is a function of the installation, so every import gives the same
  result.)
\<close>

definition import_pyvtschooldata :: "string list \<Rightarrow> 'f loader \<Rightarrow> pyerror + 'f pyobj" where
  "import_pyvtschooldata files load =
     (if package_dir @ ''__init__.py'' \<in> set files then pyvtschooldata_init files load
      else Inl (ModuleNotFoundError ''pyvtschooldata''))"

section \<open>The test module\<close>

definition test_import_package :: "string list \<Rightarrow> 'f loader \<Rightarrow> pyerror + unit" where
  "test_import_package files load =
     (case import_pyvtschooldata files load of
        Inl e \<Rightarrow> Inl e
      | Inr pyvtschooldata \<Rightarrow> py_assert (is_not_None pyvtschooldata))"

definition test_has_fetch_enr :: "string list \<Rightarrow> 'f loader \<Rightarrow> pyerror + unit" where
  "test_has_fetch_enr files load =
     (case import_pyvtschooldata files load of
        Inl e \<Rightarrow> Inl e
      | Inr pyvtschooldata \<Rightarrow>
          (case py_assert (py_hasattr pyvtschooldata ''fetch_enr'') of
             Inl e \<Rightarrow> Inl e
           | Inr _ \<Rightarrow>
               (case py_getattr pyvtschooldata ''fetch_enr'' of
                  Inl e \<Rightarrow> Inl e
                | Inr f \<Rightarrow> py_assert (py_callable f))))"

definition test_has_get_available_years :: "string list \<Rightarrow> 'f loader \<Rightarrow> pyerror + unit" where
  "test_has_get_available_years files load =
     (case import_pyvtschooldata files load of
        Inl e \<Rightarrow> Inl e
      | Inr pyvtschooldata \<Rightarrow>
          (case py_assert (py_hasattr pyvtschooldata ''get_available_years'') of
             Inl e \<Rightarrow> Inl e
           | Inr _ \<Rightarrow>
               (case py_getattr pyvtschooldata ''get_available_years'' of
                  Inl e \<Rightarrow> Inl e
                | Inr f \<Rightarrow> py_assert (py_callable f))))"

definition test_has_version :: "string list \<Rightarrow> 'f loader \<Rightarrow> pyerror + unit" where
  "test_has_version files load =
     (case import_pyvtschooldata files load of
        Inl e \<Rightarrow> Inl e
      | Inr pyvtschooldata \<Rightarrow>
          (case py_assert (py_hasattr pyvtschooldata ''__version__'') of
             Inl e \<Rightarrow> Inl e
           | Inr _ \<Rightarrow>
               (case py_getattr pyvtschooldata ''__version__'' of
                  Inl e \<Rightarrow> Inl e
                | Inr v \<Rightarrow> py_assert (isinstance_str v))))"

text \<open>
  Replacing the behaviour of every function object an installation holds, and nothing else.
\<close>

definition map_namespace :: "('f \<Rightarrow> 'g) \<Rightarrow> 'f namespace \<Rightarrow> 'g namespace" where
  "map_namespace h d = (\<lambda>a. map_option (map_pyobj h) (d a))"

definition map_loader :: "('f \<Rightarrow> 'g) \<Rightarrow> 'f loader \<Rightarrow> 'g loader" where
  "map_loader h load = (\<lambda>name. map_sum id (map_namespace h) (load name))"

section \<open>An installation to run the package in\<close>

text \<open>
  A concrete installation for evaluating the definitions: the repository's two files together
  with a \<^verbatim>\<open>core.py\<close> whose namespace binds the four names to function objects
  (numbered, since their behaviour plays no part).
\<close>

definition installed_files :: "string list" where
  "installed_files = map fst repository @ [''pyvtschooldata/pyvtschooldata/core.py'']"

definition core_namespace :: "nat namespace" where
  "core_namespace =
     [''fetch_enr'' \<mapsto> PyFunc 0, ''fetch_enr_multi'' \<mapsto> PyFunc 1,
      ''tidy_enr'' \<mapsto> PyFunc 2, ''get_available_years'' \<mapsto> PyFunc 3]"

definition installed_load :: "nat loader" where
  "installed_load name = (if name = ''core'' then Inr core_namespace else Inl (OtherError name))"

section \<open>The functions of \<^verbatim>\<open>core\<close>, from the specification\<close>

text \<open>
  The module \<^verbatim>\<open>core\<close> that defines \<^verbatim>\<open>fetch_enr\<close>, \<^verbatim>\<open>fetch_enr_multi\<close>,
  \<^verbatim>\<open>tidy_enr\<close> and \<^verbatim>\<open>get_available_years\<close> is not among the repository's files. The
  definitions of this section follow the component design of the specification (sections 3,
  4.1, 4.2, 4.3 and 7) instead.
\<close>

type_synonym year = int

text \<open>
  Modelled from the spec: the error taxonomy of section 7 (\<^verbatim>\<open>core\<close> is missing):
  \<open>DataUnavailableError\<close> (requested year not published), \<open>ProviderError\<close> (underlying
  provider call failed), \<open>SchemaError\<close> (raw data did not match the expected shape during
  tidying), \<open>NoDataError\<close> (aggregate fetch yielded zero usable years).
\<close>

datatype shim_error = DataUnavailableError | ProviderError | SchemaError | NoDataError

text \<open>
  Modelled from the spec: the EnrollmentRecord of section 3 (\<^verbatim>\<open>core\<close> is missing), one
  row of year, school identifier, grade level, demographic category and enrollment count.
\<close>

record EnrollmentRecord =
  enr_year :: year
  enr_school :: string
  enr_grade :: string
  enr_category :: string
  enr_count :: int

text \<open>
  Modelled from the spec: the raw rows of the provider (\<^verbatim>\<open>core\<close> is missing). Section 4.2
  speaks of wide demographic columns whose counts may be null and may fail to coerce to a
  non-negative integer: a raw row is a year, a school, a grade and one cell per demographic
  column, and a cell is null, a number, or something that is not a number.
\<close>

datatype raw_count = Null | Num int | Malformed string

record raw_row =
  raw_year :: year
  raw_school :: string
  raw_grade :: string
  raw_columns :: "(string \<times> raw_count) list"

text \<open>
  Modelled from the spec: the FetchResult of section 3 (\<^verbatim>\<open>core\<close> is missing), an ordered
  sequence of EnrollmentRecord plus metadata: the years successfully retrieved and the years
  that failed, with reasons.
\<close>

record FetchResult =
  records :: "EnrollmentRecord list"
  years_retrieved :: "year list"
  years_failed :: "(year \<times> shim_error) list"

text \<open>
  Modelled from the spec: the external provider of sections 4.1 and 6 (\<^verbatim>\<open>core\<close> is
  missing), an opaque service that, asked for the enrollment table of a year and a dataset
  variant, has no data for that year, fails for another reason, or returns raw rows. The
  variant selector is the type parameter \<open>'v\<close>.
\<close>

datatype provider_reply = NotPublished | CallFailed | Table "raw_row list"

type_synonym 'v provider = "year \<Rightarrow> 'v \<Rightarrow> provider_reply"

text \<open>
  Modelled from the spec: the Source Adapter of section 4.1 (\<^verbatim>\<open>core\<close> is missing). It
  returns the raw rows as the provider returned them, signals \<open>DataUnavailableError\<close> when
  the provider has no data for the requested year and \<open>ProviderError\<close> when the call fails
  for any other reason; nothing is retried.
\<close>

definition source_adapter :: "'v provider \<Rightarrow> year \<Rightarrow> 'v \<Rightarrow> shim_error + raw_row list" where
  "source_adapter p y v =
     (case p y v of
        NotPublished \<Rightarrow> Inl DataUnavailableError
      | CallFailed \<Rightarrow> Inl ProviderError
      | Table rows \<Rightarrow> Inr rows)"

text \<open>
  Modelled from the spec: what lies outside a call (\<^verbatim>\<open>core\<close> is missing). By sections 3
  and 5 the shim keeps no persistent state, cache or cross-call identity, so the world a call
  runs in is the external provider together with the external calls issued to it so far. A
  call takes a world and returns its result with the world it leaves.
\<close>

record 'v world =
  provider_of :: "'v provider"
  calls :: "(year \<times> 'v) list"

text \<open>
  Modelled from the spec: a call of the Source Adapter of section 4.1 in a world (\<^verbatim>\<open>core\<close>
  is missing): "side effects: none beyond the external call", which the world records.
\<close>

definition source_adapter_call ::
  "year \<Rightarrow> 'v \<Rightarrow> 'v world \<Rightarrow> (shim_error + raw_row list) \<times> 'v world" where
  "source_adapter_call y v w =
     (source_adapter (provider_of w) y v, w\<lparr>calls := calls w @ [(y, v)]\<rparr>)"

text \<open>
  Modelled from the spec: the first step of the Tidy Transformer of section 4.2 (\<^verbatim>\<open>core\<close>
  is missing), "pivot wide demographic columns into repeated (category, count) rows".
\<close>

definition pivot_row :: "raw_row \<Rightarrow> (raw_row \<times> string \<times> raw_count) list" where
  "pivot_row r = map (\<lambda>(c, x). (r, c, x)) (raw_columns r)"

text \<open>
  Modelled from the spec: the third step of the Tidy Transformer of section 4.2 (\<^verbatim>\<open>core\<close>
  is missing), "coerce count to non-negative integer, signaling a SchemaError if coercion
  fails".
\<close>

fun coerce_count :: "raw_count \<Rightarrow> shim_error + int" where
  "coerce_count (Num n) = (if 0 \<le> n then Inr n else Inl SchemaError)"
| "coerce_count (Malformed s) = Inl SchemaError"
| "coerce_count Null = Inl SchemaError"

fun coerce_all :: "(raw_row \<times> string \<times> raw_count) list \<Rightarrow> shim_error + EnrollmentRecord list" where
  "coerce_all [] = Inr []"
| "coerce_all ((r, c, x) # rest) =
     (case coerce_count x of
        Inl e \<Rightarrow> Inl e
      | Inr n \<Rightarrow>
          (case coerce_all rest of
             Inl e \<Rightarrow> Inl e
           | Inr recs \<Rightarrow>
               Inr (\<lparr>enr_year = raw_year r, enr_school = raw_school r, enr_grade = raw_grade r,
                     enr_category = c, enr_count = n\<rparr> # recs)))"

definition sort_order :: "EnrollmentRecord \<Rightarrow> string \<times> string \<times> string" where
  "sort_order r = (enr_school r, enr_grade r, enr_category r)"

text \<open>
  Modelled from the spec: the Tidy Transformer \<^verbatim>\<open>tidy_enr\<close> of section 4.2 (\<^verbatim>\<open>core\<close> is
  missing): pivot, drop the rows with null counts, coerce the counts, and order the result by
  school, then grade, then category, with a stable sort. It has no side effect and does no
  I/O, so it is a function of the raw rows alone.
\<close>

definition tidy_enr :: "raw_row list \<Rightarrow> shim_error + EnrollmentRecord list" where
  "tidy_enr raw =
     (case coerce_all (filter (\<lambda>(r, c, x). x \<noteq> Null) (concat (map pivot_row raw))) of
        Inl e \<Rightarrow> Inl e
      | Inr recs \<Rightarrow> Inr (sort_key sort_order recs))"

text \<open>
  Modelled from the spec: a call of \<^verbatim>\<open>tidy_enr(raw_rows)\<close> in a world (\<^verbatim>\<open>core\<close> is
  missing). Section 4.2: "purely functional: no side effects, no I/O"; the call consults
  neither the provider nor the calls issued so far and issues none.
\<close>

definition tidy_enr_call ::
  "raw_row list \<Rightarrow> 'v world \<Rightarrow> (shim_error + EnrollmentRecord list) \<times> 'v world" where
  "tidy_enr_call raw w = (tidy_enr raw, w)"

text \<open>
  The record a cell of a raw row stands for, once its count is a number; used to say what
  the transformer's output holds.
\<close>

definition cell_record :: "raw_row \<times> string \<times> raw_count \<Rightarrow> EnrollmentRecord" where
  "cell_record = (\<lambda>(r, c, x).
     \<lparr>enr_year = raw_year r, enr_school = raw_school r, enr_grade = raw_grade r,
      enr_category = c, enr_count = (case x of Num n \<Rightarrow> n | _ \<Rightarrow> 0)\<rparr>)"

text \<open>
  Modelled from the spec: \<^verbatim>\<open>fetch_enr(year, variant)\<close> (\<^verbatim>\<open>core\<close> is missing), by the
  control flow of section 2: the Adapter for the year, then the Transformer on the batch; an
  error of either propagates to the caller.
\<close>

definition fetch_enr :: "'v provider \<Rightarrow> year \<Rightarrow> 'v \<Rightarrow> shim_error + EnrollmentRecord list" where
  "fetch_enr p y v =
     (case source_adapter p y v of
        Inl e \<Rightarrow> Inl e
      | Inr raw \<Rightarrow> tidy_enr raw)"

text \<open>
  Modelled from the spec: the bookkeeping of the Multi-Year Aggregator of section 4.3
  (\<^verbatim>\<open>core\<close> is missing): of the collected per-year outcomes, the years that succeeded with
  their records, and the years that failed with their reasons.
\<close>

fun retrieved :: "(year \<times> (shim_error + EnrollmentRecord list)) list \<Rightarrow>
    (year \<times> EnrollmentRecord list) list" where
  "retrieved [] = []"
| "retrieved ((y, Inr recs) # rest) = (y, recs) # retrieved rest"
| "retrieved ((y, Inl e) # rest) = retrieved rest"

fun failed :: "(year \<times> (shim_error + EnrollmentRecord list)) list \<Rightarrow>
    (year \<times> shim_error) list" where
  "failed [] = []"
| "failed ((y, Inr recs) # rest) = failed rest"
| "failed ((y, Inl e) # rest) = (y, e) # failed rest"

text \<open>
  Modelled from the spec: the Multi-Year Aggregator \<^verbatim>\<open>fetch_enr_multi(years, variant)\<close> of
  section 4.3 (\<^verbatim>\<open>core\<close> is missing). The request is a set of years (a year asked for twice
  is fetched once). Each requested year is fetched and tidied independently, in request
  order; a failure of one year is recorded and does not abort the others. The outcomes are
  sorted by year after collection (section 5). If all requested years fail the aggregate
  \<open>NoDataError\<close> is signalled; otherwise the result is the concatenation of the records in
  ascending year order, with the years retrieved and the years failed.
\<close>

definition fetch_enr_multi :: "'v provider \<Rightarrow> year list \<Rightarrow> 'v \<Rightarrow> shim_error + FetchResult" where
  "fetch_enr_multi p ys v =
     (let outcomes = map (\<lambda>y. (y, fetch_enr p y v)) (remdups ys);
          by_year = sort_key fst outcomes;
          ok = retrieved by_year
      in if ok = [] then Inl NoDataError
         else Inr \<lparr>records = concat (map snd ok),
                   years_retrieved = map fst ok,
                   years_failed = failed by_year\<rparr>)"

section \<open>A provider to run the aggregator on\<close>

text \<open>
  A concrete provider for evaluating the definitions: it publishes 2023 and 2024, has no data
  for 2022, and fails for every other year. The 2023 table holds a null cell.
\<close>

definition demo_raw_2023 :: "raw_row list" where
  "demo_raw_2023 =
     [\<lparr>raw_year = 2023, raw_school = ''PS002'', raw_grade = ''K'',
        raw_columns = [(''total'', Num 40), (''female'', Null)]\<rparr>,
      \<lparr>raw_year = 2023, raw_school = ''PS001'', raw_grade = ''K'',
        raw_columns = [(''total'', Num 31), (''female'', Num 15)]\<rparr>]"

definition demo_raw_2024 :: "raw_row list" where
  "demo_raw_2024 =
     [\<lparr>raw_year = 2024, raw_school = ''PS001'', raw_grade = ''K'',
        raw_columns = [(''total'', Num 33)]\<rparr>]"

definition demo_provider :: "unit provider" where
  "demo_provider y v =
     (if y = 2023 then Table demo_raw_2023
      else if y = 2024 then Table demo_raw_2024
      else if y = 2022 then NotPublished
      else CallFailed)"

definition demo_world :: "unit world" where
  "demo_world = \<lparr>provider_of = demo_provider, calls = []\<rparr>"

definition demo_2023 :: "EnrollmentRecord list" where
  "demo_2023 =
     [\<lparr>enr_year = 2023, enr_school = ''PS001'', enr_grade = ''K'',
        enr_category = ''female'', enr_count = 15\<rparr>,
      \<lparr>enr_year = 2023, enr_school = ''PS001'', enr_grade = ''K'',
        enr_category = ''total'', enr_count = 31\<rparr>,
      \<lparr>enr_year = 2023, enr_school = ''PS002'', enr_grade = ''K'',
        enr_category = ''total'', enr_count = 40\<rparr>]"

definition demo_2024 :: "EnrollmentRecord list" where
  "demo_2024 =
     [\<lparr>enr_year = 2024, enr_school = ''PS001'', enr_grade = ''K'',
        enr_category = ''total'', enr_count = 33\<rparr>]"

section \<open>Facts about the import\<close>

lemma bind_names_Inr:
  "bind_names m src ns d = Inr d' \<Longrightarrow>
     (\<forall>n \<in> set ns. src n \<noteq> None \<and> d' n = src n) \<and> (\<forall>n. n \<notin> set ns \<longrightarrow> d' n = d n)"
proof (induction ns arbitrary: d)
  case Nil
  then show ?case by simp
next
  case (Cons a ns)
  from Cons.prems obtain v where v: "src a = Some v"
    and rest: "bind_names m src ns (d(a \<mapsto> v)) = Inr d'"
    by (auto split: option.splits)
  from Cons.IH[OF rest] have ih1: "\<forall>n \<in> set ns. src n \<noteq> None \<and> d' n = src n"
    and ih2: "\<forall>n. n \<notin> set ns \<longrightarrow> d' n = (d(a \<mapsto> v)) n"
    by auto
  show ?case
  proof (intro conjI ballI allI impI)
    fix n assume "n \<in> set (a # ns)"
    then show "src n \<noteq> None" using v ih1 by auto
  next
    fix n assume n: "n \<in> set (a # ns)"
    show "d' n = src n"
    proof (cases "n \<in> set ns")
      case True
      then show ?thesis using ih1 by simp
    next
      case False
      with n have "n = a" by simp
      with False ih2 v show ?thesis by simp
    qed
  next
    fix n assume "n \<notin> set (a # ns)"
    then show "d' n = d n" using ih2 by simp
  qed
qed

lemma init_Inr_core:
  assumes "pyvtschooldata_init files load = Inr m"
  obtains src d1 where "find_submodule files ''core''" and "load ''core'' = Inr src"
    and "bind_names ''pyvtschooldata.core'' src inbound_call_surface
           (initial_namespace(''core'' \<mapsto> PyModule ''pyvtschooldata.core'' src)) = Inr d1"
    and "m = PyModule ''pyvtschooldata''
           (d1(''__version__'' \<mapsto> PyStr ''0.1.0'',
               ''__all__'' \<mapsto> PyList (map PyStr inbound_call_surface)))"
  using assms
  by (auto simp: pyvtschooldata_init_def import_from_def import_submodule_def
      inbound_call_surface_def Let_def split: sum.splits if_splits)

lemma core_in_installed: "find_submodule installed_files ''core''"
  by (simp add: find_submodule_def installed_files_def repository_def package_dir_def)

lemma installed_import_from:
  "import_from installed_files installed_load ''core'' ns d =
     bind_names ''pyvtschooldata.core'' core_namespace ns
       (d(''core'' \<mapsto> PyModule ''pyvtschooldata.core'' core_namespace))"
  using core_in_installed
  by (simp add: import_from_def import_submodule_def installed_load_def)

lemma installed_init:
  "\<exists>d. pyvtschooldata_init installed_files installed_load = Inr (PyModule ''pyvtschooldata'' d)"
  unfolding pyvtschooldata_init_def installed_import_from
  by (simp add: core_namespace_def)

lemma no_core_in_repository: "\<not> find_submodule (map fst repository) ''core''"
  by (simp add: find_submodule_def repository_def package_dir_def)

lemma init_in_repository: "package_dir @ ''__init__.py'' \<in> set (map fst repository)"
  by (simp add: repository_def package_dir_def)

lemma repository_import:
  "import_pyvtschooldata (map fst repository) load =
     Inl (ModuleNotFoundError ''pyvtschooldata.core'')"
  unfolding import_pyvtschooldata_def pyvtschooldata_init_def import_from_def
    import_submodule_def
  using no_core_in_repository init_in_repository
  by simp

lemma init_needs_core:
  assumes ok: "pyvtschooldata_init files load = Inr m"
  shows "find_submodule files ''core'' \<and>
      (\<exists>src. load ''core'' = Inr src \<and> (\<forall>n \<in> set inbound_call_surface. src n \<noteq> None))"
proof (rule init_Inr_core[OF ok])
  fix src d1
  assume f: "find_submodule files ''core''" and l: "load ''core'' = Inr src"
    and b: "bind_names ''pyvtschooldata.core'' src inbound_call_surface
           (initial_namespace(''core'' \<mapsto> PyModule ''pyvtschooldata.core'' src)) = Inr d1"
  from bind_names_Inr[OF b] have "\<forall>n \<in> set inbound_call_surface. src n \<noteq> None \<and> d1 n = src n"
    by (rule conjunct1)
  then have "\<forall>n \<in> set inbound_call_surface. src n \<noteq> None" by simp
  with l have "\<exists>src. load ''core'' = Inr src \<and> (\<forall>n \<in> set inbound_call_surface. src n \<noteq> None)"
    by (intro exI conjI)
  with f show ?thesis by (rule conjI)
qed

lemma init_namespace:
  assumes ok: "pyvtschooldata_init files load = Inr (PyModule nm d)"
  shows "\<exists>src. load ''core'' = Inr src \<and>
     (\<forall>n \<in> set inbound_call_surface. d n = src n \<and> src n \<noteq> None) \<and>
     d ''__version__'' = Some (PyStr ''0.1.0'') \<and>
     d ''__all__'' = Some (PyList (map PyStr inbound_call_surface)) \<and>
     d ''__name__'' = Some (PyStr ''pyvtschooldata'') \<and>
     d ''__doc__'' = Some (PyStr module_doc) \<and>
     d ''core'' = Some (PyModule ''pyvtschooldata.core'' src) \<and>
     (\<forall>n. n \<notin> set inbound_call_surface \<and> n \<noteq> ''__version__'' \<and> n \<noteq> ''__all__'' \<and>
          n \<noteq> ''__name__'' \<and> n \<noteq> ''__doc__'' \<and> n \<noteq> ''core'' \<longrightarrow> d n = None)"
proof (rule init_Inr_core[OF ok])
  fix src d1
  assume l: "load ''core'' = Inr src"
    and b: "bind_names ''pyvtschooldata.core'' src inbound_call_surface
           (initial_namespace(''core'' \<mapsto> PyModule ''pyvtschooldata.core'' src)) = Inr d1"
    and m: "PyModule nm d = PyModule ''pyvtschooldata''
           (d1(''__version__'' \<mapsto> PyStr ''0.1.0'',
               ''__all__'' \<mapsto> PyList (map PyStr inbound_call_surface)))"
  from m have d: "d = d1(''__version__'' \<mapsto> PyStr ''0.1.0'',
               ''__all__'' \<mapsto> PyList (map PyStr inbound_call_surface))"
    by simp
  from bind_names_Inr[OF b] have
    inn: "\<forall>n \<in> set inbound_call_surface. src n \<noteq> None \<and> d1 n = src n"
    by (rule conjunct1)
  from bind_names_Inr[OF b] have
    out: "\<forall>n. n \<notin> set inbound_call_surface \<longrightarrow>
      d1 n = (initial_namespace(''core'' \<mapsto> PyModule ''pyvtschooldata.core'' src)) n"
    by (rule conjunct2)
  have p1: "\<forall>n \<in> set inbound_call_surface. d n = src n \<and> src n \<noteq> None"
  proof
    fix n assume n: "n \<in> set inbound_call_surface"
    then have "n \<noteq> ''__version__''" and "n \<noteq> ''__all__''"
      by (auto simp: inbound_call_surface_def)
    then have "d n = d1 n" by (simp add: d)
    with inn n show "d n = src n \<and> src n \<noteq> None" by simp
  qed
  have p2: "d ''__version__'' = Some (PyStr ''0.1.0'')" by (simp add: d)
  have p3: "d ''__all__'' = Some (PyList (map PyStr inbound_call_surface))" by (simp add: d)
  have nin: "''__name__'' \<notin> set inbound_call_surface" "''__doc__'' \<notin> set inbound_call_surface"
    "''core'' \<notin> set inbound_call_surface"
    by (simp_all add: inbound_call_surface_def)
  have p4: "d ''__name__'' = Some (PyStr ''pyvtschooldata'')"
    using out nin(1) by (simp add: d initial_namespace_def)
  have p5: "d ''__doc__'' = Some (PyStr module_doc)"
    using out nin(2) by (simp add: d initial_namespace_def)
  have p6: "d ''core'' = Some (PyModule ''pyvtschooldata.core'' src)"
    using out nin(3) by (simp add: d initial_namespace_def)
  have p7: "\<forall>n. n \<notin> set inbound_call_surface \<and> n \<noteq> ''__version__'' \<and> n \<noteq> ''__all__'' \<and>
          n \<noteq> ''__name__'' \<and> n \<noteq> ''__doc__'' \<and> n \<noteq> ''core'' \<longrightarrow> d n = None"
    using out by (simp add: d initial_namespace_def)
  from l p1 p2 p3 p4 p5 p6 p7 show ?thesis by (intro exI conjI)
qed

section \<open>The tests do not depend on what the functions do\<close>

lemma map_namespace_upd:
  "(map_namespace h d)(a \<mapsto> map_pyobj h v) = map_namespace h (d(a \<mapsto> v))"
  by (rule ext) (simp add: map_namespace_def)

lemma map_namespace_module:
  "(map_namespace h d)(a \<mapsto> PyModule n (map_namespace h src)) =
     map_namespace h (d(a \<mapsto> PyModule n src))"
  by (rule ext) (simp add: map_namespace_def fun_eq_iff)

lemma bind_names_map:
  "bind_names m (map_namespace h src) ns (map_namespace h d) =
     map_sum id (map_namespace h) (bind_names m src ns d)"
proof (induction ns arbitrary: d)
  case Nil
  then show ?case by simp
next
  case (Cons a ns)
  show ?case
  proof (cases "src a")
    case None
    then show ?thesis by (simp add: map_namespace_def)
  next
    case (Some v)
    then have 1: "map_namespace h src a = Some (map_pyobj h v)"
      by (simp add: map_namespace_def)
    show ?thesis
      unfolding bind_names.simps 1 Some option.case map_namespace_upd
      by (rule Cons.IH)
  qed
qed

lemma initial_namespace_map:
  "map_namespace h initial_namespace = initial_namespace"
  by (rule ext) (simp add: initial_namespace_def map_namespace_def)

lemma import_from_map:
  "import_from files (map_loader h load) sub ns (map_namespace h d) =
     map_sum id (map_namespace h) (import_from files load sub ns d)"
proof (cases "import_submodule files load sub")
  case (Inl e)
  then have "import_submodule files (map_loader h load) sub = Inl e"
    by (auto simp: import_submodule_def map_loader_def split: if_splits)
  with Inl show ?thesis by (simp add: import_from_def)
next
  case (Inr src)
  then have 1: "import_submodule files (map_loader h load) sub = Inr (map_namespace h src)"
    by (auto simp: import_submodule_def map_loader_def split: if_splits)
  show ?thesis
    unfolding import_from_def 1 Inr sum.case map_namespace_module bind_names_map ..
qed

lemma init_map:
  "pyvtschooldata_init files (map_loader h load) =
     map_sum id (map_pyobj h) (pyvtschooldata_init files load)"
proof -
  have 1: "import_from files (map_loader h load) ''core''
          [''fetch_enr'', ''fetch_enr_multi'', ''tidy_enr'', ''get_available_years'']
          initial_namespace =
        map_sum id (map_namespace h)
          (import_from files load ''core''
          [''fetch_enr'', ''fetch_enr_multi'', ''tidy_enr'', ''get_available_years'']
          initial_namespace)" (is "?l = map_sum id ?f ?r")
    using import_from_map[of files h load "''core''" _ initial_namespace]
    by (simp only: initial_namespace_map)
  show ?thesis
  proof (cases ?r)
    case (Inl e)
    then show ?thesis unfolding pyvtschooldata_init_def 1 by simp
  next
    case (Inr d1)
    have "map_namespace h (d1(''__version__'' \<mapsto> PyStr ''0.1.0'',
            ''__all__'' \<mapsto> PyList [PyStr ''fetch_enr'', PyStr ''fetch_enr_multi'',
                             PyStr ''tidy_enr'', PyStr ''get_available_years''])) =
          (map_namespace h d1)(''__version__'' \<mapsto> PyStr ''0.1.0'',
            ''__all__'' \<mapsto> PyList [PyStr ''fetch_enr'', PyStr ''fetch_enr_multi'',
                             PyStr ''tidy_enr'', PyStr ''get_available_years''])"
      by (rule ext) (simp add: map_namespace_def)
    then show ?thesis
      unfolding pyvtschooldata_init_def 1 Inr
      by (simp add: Let_def map_namespace_def[abs_def] comp_def)
  qed
qed

lemma import_map:
  "import_pyvtschooldata files (map_loader h load) =
     map_sum id (map_pyobj h) (import_pyvtschooldata files load)"
  by (simp add: import_pyvtschooldata_def init_map)

lemma import_is_module:
  assumes "import_pyvtschooldata files load = Inr m"
  obtains d where "m = PyModule ''pyvtschooldata'' d"
    and "pyvtschooldata_init files load = Inr (PyModule ''pyvtschooldata'' d)"
proof -
  from assms have i: "pyvtschooldata_init files load = Inr m"
    by (simp add: import_pyvtschooldata_def split: if_splits)
  show ?thesis
  proof (rule init_Inr_core[OF i])
    fix src d1
    assume "m = PyModule ''pyvtschooldata''
           (d1(''__version__'' \<mapsto> PyStr ''0.1.0'',
               ''__all__'' \<mapsto> PyList (map PyStr inbound_call_surface)))"
    with i that show ?thesis by simp
  qed
qed

lemma py_callable_map: "py_callable (map_pyobj h v) = py_callable v"
  by (cases v) simp_all

lemma isinstance_str_map: "isinstance_str (map_pyobj h v) = isinstance_str v"
  by (cases v) simp_all

lemma is_not_None_map: "is_not_None (map_pyobj h v) = is_not_None v"
  by (cases v) simp_all

lemma py_hasattr_map: "py_hasattr (map_pyobj h v) a = py_hasattr v a"
  by (cases v) (simp_all split: option.splits)

lemma py_getattr_map: "py_getattr (map_pyobj h v) a = map_sum id (map_pyobj h) (py_getattr v a)"
  by (cases v) (simp_all split: option.splits)

lemma test_import_package_map:
  "test_import_package files (map_loader h load) = test_import_package files load"
  by (cases "import_pyvtschooldata files load")
     (simp_all add: test_import_package_def import_map is_not_None_map)

lemma test_has_fetch_enr_map:
  "test_has_fetch_enr files (map_loader h load) = test_has_fetch_enr files load"
  by (cases "import_pyvtschooldata files load")
     (auto simp add: test_has_fetch_enr_def import_map py_hasattr_map py_getattr_map
        py_callable_map split: sum.splits)

lemma test_has_get_available_years_map:
  "test_has_get_available_years files (map_loader h load) =
     test_has_get_available_years files load"
  by (cases "import_pyvtschooldata files load")
     (auto simp add: test_has_get_available_years_def import_map py_hasattr_map py_getattr_map
        py_callable_map split: sum.splits)

lemma test_has_version_map:
  "test_has_version files (map_loader h load) = test_has_version files load"
  by (cases "import_pyvtschooldata files load")
     (auto simp add: test_has_version_def import_map py_hasattr_map py_getattr_map
        isinstance_str_map split: sum.splits)


section \<open>What each test passes on\<close>

lemma test_import_package_iff:
  "test_import_package files load = Inr () \<longleftrightarrow>
     (\<exists>m. import_pyvtschooldata files load = Inr m)"
proof (cases "import_pyvtschooldata files load")
  case (Inl e)
  then show ?thesis by (simp add: test_import_package_def)
next
  case (Inr m)
  from import_is_module[OF Inr] obtain d where "m = PyModule ''pyvtschooldata'' d" .
  with Inr show ?thesis by (simp add: test_import_package_def py_assert_def)
qed

lemma test_has_fetch_enr_iff:
  "test_has_fetch_enr files load = Inr () \<longleftrightarrow>
     (\<exists>nm d f. import_pyvtschooldata files load = Inr (PyModule nm d) \<and>
        d ''fetch_enr'' = Some (PyFunc f))"
proof (cases "import_pyvtschooldata files load")
  case (Inl e)
  then show ?thesis by (simp add: test_has_fetch_enr_def)
next
  case (Inr m)
  from import_is_module[OF Inr] obtain d where m: "m = PyModule ''pyvtschooldata'' d" .
  show ?thesis
  proof (cases "d ''fetch_enr''")
    case None
    with Inr m show ?thesis by (simp add: test_has_fetch_enr_def py_assert_def)
  next
    case (Some v)
    with Inr m show ?thesis
      by (cases v) (simp_all add: test_has_fetch_enr_def py_assert_def)
  qed
qed

lemma test_has_get_available_years_iff:
  "test_has_get_available_years files load = Inr () \<longleftrightarrow>
     (\<exists>nm d f. import_pyvtschooldata files load = Inr (PyModule nm d) \<and>
        d ''get_available_years'' = Some (PyFunc f))"
proof (cases "import_pyvtschooldata files load")
  case (Inl e)
  then show ?thesis by (simp add: test_has_get_available_years_def)
next
  case (Inr m)
  from import_is_module[OF Inr] obtain d where m: "m = PyModule ''pyvtschooldata'' d" .
  show ?thesis
  proof (cases "d ''get_available_years''")
    case None
    with Inr m show ?thesis by (simp add: test_has_get_available_years_def py_assert_def)
  next
    case (Some v)
    with Inr m show ?thesis
      by (cases v) (simp_all add: test_has_get_available_years_def py_assert_def)
  qed
qed

lemma test_has_version_iff:
  "test_has_version files load = Inr () \<longleftrightarrow>
     (\<exists>nm d s. import_pyvtschooldata files load = Inr (PyModule nm d) \<and>
        d ''__version__'' = Some (PyStr s))"
proof (cases "import_pyvtschooldata files load")
  case (Inl e)
  then show ?thesis by (simp add: test_has_version_def)
next
  case (Inr m)
  from import_is_module[OF Inr] obtain d where m: "m = PyModule ''pyvtschooldata'' d" .
  show ?thesis
  proof (cases "d ''__version__''")
    case None
    with Inr m show ?thesis by (simp add: test_has_version_def py_assert_def)
  next
    case (Some v)
    with Inr m show ?thesis
      by (cases v) (simp_all add: test_has_version_def py_assert_def)
  qed
qed

lemma installed_import:
  "\<exists>d. import_pyvtschooldata installed_files installed_load = Inr (PyModule ''pyvtschooldata'' d) \<and>
       d ''fetch_enr'' = Some (PyFunc 0) \<and> d ''get_available_years'' = Some (PyFunc 3) \<and>
       d ''__version__'' = Some (PyStr ''0.1.0'')"
proof -
  from installed_init obtain d where
    ok: "pyvtschooldata_init installed_files installed_load = Inr (PyModule ''pyvtschooldata'' d)"
    by (rule exE)
  have "package_dir @ ''__init__.py'' \<in> set installed_files"
    by (simp add: installed_files_def repository_def package_dir_def)
  with ok have i: "import_pyvtschooldata installed_files installed_load =
      Inr (PyModule ''pyvtschooldata'' d)"
    by (simp add: import_pyvtschooldata_def)
  from init_namespace[OF ok] obtain src where l: "installed_load ''core'' = Inr src"
    and n: "\<forall>n \<in> set inbound_call_surface. d n = src n \<and> src n \<noteq> None"
    and v: "d ''__version__'' = Some (PyStr ''0.1.0'')"
    by (elim exE conjE)
  from l have "src = core_namespace" by (simp add: installed_load_def)
  with n have "d ''fetch_enr'' = Some (PyFunc 0) \<and> d ''get_available_years'' = Some (PyFunc 3)"
    by (simp add: inbound_call_surface_def core_namespace_def)
  with i v show ?thesis by (intro exI[where x=d]) simp
qed


section \<open>Counting lines\<close>

lemma splitlines_from_line:
  "newline \<notin> set l \<Longrightarrow>
     splitlines_from cur (l @ newline # rest) = (cur @ l) # splitlines_from [] rest"
  by (induction l arbitrary: cur) auto

lemma splitlines_from_last:
  "newline \<notin> set l \<Longrightarrow> splitlines_from cur l = (if cur @ l = [] then [] else [cur @ l])"
  by (induction l arbitrary: cur) auto

lemma splitlines_unlines_py:
  assumes "\<forall>l \<in> set ls. newline \<notin> set l" and "newline \<notin> set t"
  shows "splitlines (unlines_py ls @ t) = ls @ (if t = [] then [] else [t])"
  using assms(1)
proof (induction ls)
  case Nil
  with assms(2) show ?case
    by (simp add: splitlines_def unlines_py_def splitlines_from_last)
next
  case (Cons l ls)
  then have l: "newline \<notin> set l" and ls: "\<forall>l \<in> set ls. newline \<notin> set l"
    by simp_all
  have "splitlines (unlines_py (l # ls) @ t) =
        splitlines_from [] (l @ newline # (unlines_py ls @ t))"
    by (simp add: splitlines_def unlines_py_def)
  also have "\<dots> = l # splitlines (unlines_py ls @ t)"
    using splitlines_from_line[OF l, of "[]"] by (simp add: splitlines_def)
  finally show ?case using Cons.IH[OF ls] by simp
qed


section \<open>Facts about the transformer and the aggregator\<close>

lemma tidy_enr_sorted:
  assumes "tidy_enr raw = Inr out"
  shows "sorted (map sort_order out)"
proof -
  from assms obtain recs where "out = sort_key sort_order recs"
    by (auto simp: tidy_enr_def split: sum.splits)
  then show ?thesis by simp
qed

lemma insort_key_tagged:
  "insort_key fst (y, f y) (map (\<lambda>y. (y, f y)) zs) =
     map (\<lambda>y. (y, f y)) (insort_key (\<lambda>x. x) y zs)"
  by (induction zs) simp_all

lemma sort_key_tagged:
  "sort_key fst (map (\<lambda>y. (y, f y)) ys) = map (\<lambda>y. (y, f y)) (sort ys)"
  by (induction ys) (simp_all add: insort_key_tagged)

lemma retrieved_years:
  "map fst (retrieved (map (\<lambda>y. (y, f y)) zs)) = filter (\<lambda>y. \<not> isl (f y)) zs"
proof (induction zs)
  case Nil
  then show ?case by simp
next
  case (Cons z zs)
  then show ?case by (cases "f z") simp_all
qed

lemma retrieved_records:
  "concat (map snd (retrieved (map (\<lambda>y. (y, f y)) zs))) =
     concat (map (\<lambda>y. case f y of Inl e \<Rightarrow> [] | Inr r \<Rightarrow> r) zs)"
proof (induction zs)
  case Nil
  then show ?case by simp
next
  case (Cons z zs)
  then show ?case by (cases "f z") simp_all
qed

lemma failed_entries:
  "(y, e) \<in> set (failed (map (\<lambda>y. (y, f y)) zs)) \<longleftrightarrow> y \<in> set zs \<and> f y = Inl e"
proof (induction zs)
  case Nil
  then show ?case by simp
next
  case (Cons z zs)
  then show ?case by (cases "f z") auto
qed

lemma retrieved_empty:
  "retrieved (map (\<lambda>y. (y, f y)) zs) = [] \<longleftrightarrow> (\<forall>y \<in> set zs. isl (f y))"
proof (induction zs)
  case Nil
  then show ?case by simp
next
  case (Cons z zs)
  then show ?case by (cases "f z") simp_all
qed

lemma fetch_enr_multi_unfold:
  "fetch_enr_multi p ys v =
     (if \<forall>y \<in> set ys. isl (fetch_enr p y v) then Inl NoDataError
      else Inr \<lparr>records = concat (map (\<lambda>y. case fetch_enr p y v of Inl e \<Rightarrow> [] | Inr r \<Rightarrow> r)
                                    (sort (remdups ys))),
                 years_retrieved = filter (\<lambda>y. \<not> isl (fetch_enr p y v)) (sort (remdups ys)),
                 years_failed = failed (map (\<lambda>y. (y, fetch_enr p y v)) (sort (remdups ys)))\<rparr>)"
  unfolding fetch_enr_multi_def Let_def sort_key_tagged
  by (simp add: retrieved_empty retrieved_years retrieved_records)

lemma sort_remdups_pair:
  "sort (remdups [y1, y2 :: int]) =
     (if y1 < y2 then [y1, y2] else if y2 < y1 then [y2, y1] else [y1])"
  by auto


lemma sorted_triples_nth:
  fixes ks :: "(string \<times> string \<times> string) list"
  assumes "sorted ks" and "i < j" and "j < length ks"
  shows "fst (ks ! i) < fst (ks ! j) \<or>
         (fst (ks ! i) = fst (ks ! j) \<and>
            (fst (snd (ks ! i)) < fst (snd (ks ! j)) \<or>
             (fst (snd (ks ! i)) = fst (snd (ks ! j)) \<and> snd (snd (ks ! i)) \<le> snd (snd (ks ! j)))))"
proof -
  from assms have le: "ks ! i \<le> ks ! j"
    by (simp add: sorted_iff_nth_mono)
  obtain a b c where i: "ks ! i = (a, b, c)" by (cases "ks ! i") auto
  obtain a' b' c' where j: "ks ! j = (a', b', c')" by (cases "ks ! j") auto
  from le show ?thesis
    unfolding i j by (auto simp: less_eq_prod_def less_le)
qed

lemma demo_fetch_2023: "fetch_enr demo_provider 2023 () = Inr demo_2023"
  by code_simp

lemma demo_fetch_2024: "fetch_enr demo_provider 2024 () = Inr demo_2024"
  by code_simp

lemma demo_fetch_2022: "fetch_enr demo_provider 2022 () = Inl DataUnavailableError"
  by code_simp

lemma demo_fetch_1999: "fetch_enr demo_provider 1999 () = Inl ProviderError"
  by code_simp

lemma demo_tidy_2023: "tidy_enr demo_raw_2023 = Inr demo_2023"
  by code_simp

lemma coerce_all_Inr:
  "coerce_all cs = Inr recs \<Longrightarrow>
     recs = map cell_record cs \<and> (\<forall>(r, c, x) \<in> set cs. \<exists>n. x = Num n \<and> 0 \<le> n)"
proof (induction cs arbitrary: recs)
  case Nil
  then show ?case by simp
next
  case (Cons a cs)
  obtain r c x where a: "a = (r, c, x)" by (cases a) auto
  from Cons.prems obtain n rest where n: "coerce_count x = Inr n"
    and rest: "coerce_all cs = Inr rest"
    and recs: "recs = \<lparr>enr_year = raw_year r, enr_school = raw_school r,
        enr_grade = raw_grade r, enr_category = c, enr_count = n\<rparr> # rest"
    unfolding a by (auto split: sum.splits)
  from n have x: "x = Num n \<and> 0 \<le> n"
    by (cases x) (auto split: if_splits)
  from Cons.IH[OF rest] x recs show ?case
    unfolding a by (simp add: cell_record_def)
qed

lemma coerce_all_ok:
  "(\<forall>(r, c, x) \<in> set cs. \<exists>n. x = Num n \<and> 0 \<le> n) \<Longrightarrow> coerce_all cs = Inr (map cell_record cs)"
proof (induction cs)
  case Nil
  then show ?case by simp
next
  case (Cons a cs)
  obtain r c x where a: "a = (r, c, x)" by (cases a) auto
  from Cons.prems obtain n where x: "x = Num n" and n: "0 \<le> n"
    unfolding a by auto
  from Cons.prems have "\<forall>(r, c, x) \<in> set cs. \<exists>n. x = Num n \<and> 0 \<le> n" by simp
  from Cons.IH[OF this] x n show ?case
    unfolding a by (simp add: cell_record_def)
qed

lemma coerce_all_Inl: "coerce_all cs = Inl e \<Longrightarrow> e = SchemaError"
proof (induction cs)
  case Nil
  then show ?case by simp
next
  case (Cons a cs)
  obtain r c x where a: "a = (r, c, x)" by (cases a) auto
  from Cons show ?case
    unfolding a by (cases x) (auto split: sum.splits if_splits)
qed


lemma non_null_cells_set:
  "(r, c, x) \<in> set (filter (\<lambda>(r, c, x). x \<noteq> Null) (concat (map pivot_row raw))) \<longleftrightarrow>
     r \<in> set raw \<and> (c, x) \<in> set (raw_columns r) \<and> x \<noteq> Null"
  by (auto simp: pivot_row_def)

lemma non_null_cells_length:
  "length (filter (\<lambda>(r, c, x). x \<noteq> Null) (concat (map pivot_row raw))) =
     sum_list (map (\<lambda>r. length (filter (\<lambda>(c, x). x \<noteq> Null) (raw_columns r))) raw)"
proof (induction raw)
  case Nil
  then show ?case by simp
next
  case (Cons r raw)
  have "length (filter (\<lambda>(r, c, x). x \<noteq> Null) (pivot_row r)) =
        length (filter (\<lambda>(c, x). x \<noteq> Null) (raw_columns r))"
    by (simp add: pivot_row_def filter_map comp_def case_prod_unfold)
  with Cons show ?case by simp
qed

lemma tidy_enr_Inr:
  assumes "tidy_enr raw = Inr recs"
  shows "recs = sort_key sort_order (map cell_record
           (filter (\<lambda>(r, c, x). x \<noteq> Null) (concat (map pivot_row raw))))"
    and "\<forall>r \<in> set raw. \<forall>(c, x) \<in> set (raw_columns r). x = Null \<or> (\<exists>n. x = Num n \<and> 0 \<le> n)"
proof -
  let ?cs = "filter (\<lambda>(r, c, x). x \<noteq> Null) (concat (map pivot_row raw))"
  from assms obtain rs where c: "coerce_all ?cs = Inr rs" and r: "recs = sort_key sort_order rs"
    by (auto simp: tidy_enr_def split: sum.splits)
  from coerce_all_Inr[OF c] have rs: "rs = map cell_record ?cs"
    by (rule conjunct1)
  from coerce_all_Inr[OF c] have ok: "\<forall>(r, c, x) \<in> set ?cs. \<exists>n. x = Num n \<and> 0 \<le> n"
    by (rule conjunct2)
  from r rs show "recs = sort_key sort_order (map cell_record ?cs)" by simp
  show "\<forall>r \<in> set raw. \<forall>(c, x) \<in> set (raw_columns r). x = Null \<or> (\<exists>n. x = Num n \<and> 0 \<le> n)"
  proof (intro ballI)
    fix r cx assume r: "r \<in> set raw" and cx: "cx \<in> set (raw_columns r)"
    obtain c x where e: "cx = (c, x)" by (cases cx) auto
    show "case cx of (c, x) \<Rightarrow> x = Null \<or> (\<exists>n. x = Num n \<and> 0 \<le> n)"
    proof (cases "x = Null")
      case True
      then show ?thesis by (simp add: e)
    next
      case False
      with r cx have "(r, c, x) \<in> set ?cs" by (auto simp: pivot_row_def e)
      with ok have "\<exists>n. x = Num n \<and> 0 \<le> n" by fastforce
      then show ?thesis by (simp add: e)
    qed
  qed
qed

lemma tidy_enr_ok:
  assumes "\<forall>r \<in> set raw. \<forall>(c, x) \<in> set (raw_columns r). x = Null \<or> (\<exists>n. x = Num n \<and> 0 \<le> n)"
  shows "tidy_enr raw = Inr (sort_key sort_order (map cell_record
           (filter (\<lambda>(r, c, x). x \<noteq> Null) (concat (map pivot_row raw)))))"
proof -
  let ?cs = "filter (\<lambda>(r, c, x). x \<noteq> Null) (concat (map pivot_row raw))"
  have "\<forall>(r, c, x) \<in> set ?cs. \<exists>n. x = Num n \<and> 0 \<le> n"
  proof (clarify)
    fix r c x assume "(r, c, x) \<in> set ?cs"
    then have "r \<in> set raw" and "(c, x) \<in> set (raw_columns r)" and "x \<noteq> Null"
      by (auto simp: pivot_row_def)
    with assms show "\<exists>n. x = Num n \<and> 0 \<le> n" by fastforce
  qed
  from coerce_all_ok[OF this] show ?thesis by (simp add: tidy_enr_def)
qed

lemma tidy_enr_Inl: "tidy_enr raw = Inl e \<Longrightarrow> e = SchemaError"
  by (auto simp: tidy_enr_def split: sum.splits dest: coerce_all_Inl)

lemma tidy_enr_members:
  assumes "tidy_enr raw = Inr recs"
  shows "rec \<in> set recs \<longleftrightarrow>
     (\<exists>r c n. r \<in> set raw \<and> (c, Num n) \<in> set (raw_columns r) \<and>
        rec = \<lparr>enr_year = raw_year r, enr_school = raw_school r, enr_grade = raw_grade r,
               enr_category = c, enr_count = n\<rparr>)"
proof -
  let ?cs = "filter (\<lambda>(r, c, x). x \<noteq> Null) (concat (map pivot_row raw))"
  from tidy_enr_Inr[OF assms] have recs: "set recs = cell_record ` set ?cs"
    and ok: "\<forall>r \<in> set raw. \<forall>(c, x) \<in> set (raw_columns r). x = Null \<or> (\<exists>n. x = Num n \<and> 0 \<le> n)"
    by simp_all
  show ?thesis
  proof
    assume "rec \<in> set recs"
    with recs obtain r c x where m: "(r, c, x) \<in> set ?cs" and rec: "rec = cell_record (r, c, x)"
      by auto
    from m have r: "r \<in> set raw" and cx: "(c, x) \<in> set (raw_columns r)" and x: "x \<noteq> Null"
      by (auto simp: pivot_row_def)
    with ok obtain n where n: "x = Num n" by fastforce
    from r cx n rec show "\<exists>r c n. r \<in> set raw \<and> (c, Num n) \<in> set (raw_columns r) \<and>
        rec = \<lparr>enr_year = raw_year r, enr_school = raw_school r, enr_grade = raw_grade r,
               enr_category = c, enr_count = n\<rparr>"
      by (auto simp: cell_record_def)
  next
    assume "\<exists>r c n. r \<in> set raw \<and> (c, Num n) \<in> set (raw_columns r) \<and>
        rec = \<lparr>enr_year = raw_year r, enr_school = raw_school r, enr_grade = raw_grade r,
               enr_category = c, enr_count = n\<rparr>"
    then obtain r c n where r: "r \<in> set raw" and cx: "(c, Num n) \<in> set (raw_columns r)"
      and rec: "rec = \<lparr>enr_year = raw_year r, enr_school = raw_school r,
               enr_grade = raw_grade r, enr_category = c, enr_count = n\<rparr>"
      by blast
    from r cx have "(r, c, Num n) \<in> set ?cs" by (auto simp: pivot_row_def)
    then have "cell_record (r, c, Num n) \<in> set recs" unfolding recs by (rule imageI)
    with rec show "rec \<in> set recs" by (simp add: cell_record_def)
  qed
qed

lemma tidy_enr_length:
  assumes "tidy_enr raw = Inr recs"
  shows "length recs =
     sum_list (map (\<lambda>r. length (filter (\<lambda>(c, x). x \<noteq> Null) (raw_columns r))) raw)"
  using tidy_enr_Inr(1)[OF assms] by (simp add: non_null_cells_length)

lemma tidy_enr_counts:
  assumes "tidy_enr raw = Inr recs" and "rec \<in> set recs"
  shows "0 \<le> enr_count rec"
proof -
  from tidy_enr_members[OF assms(1), of rec] assms(2) obtain r c n where
    r: "r \<in> set raw" and cx: "(c, Num n) \<in> set (raw_columns r)"
    and rec: "rec = \<lparr>enr_year = raw_year r, enr_school = raw_school r,
               enr_grade = raw_grade r, enr_category = c, enr_count = n\<rparr>"
    by blast
  from tidy_enr_Inr(2)[OF assms(1)] r cx have "0 \<le> n" by fastforce
  with rec show ?thesis by simp
qed


section \<open>The claims settled on the repository's code\<close>

text \<open>
  Claim C1. The package's inbound call surface is exactly the four functions
  \<^verbatim>\<open>fetch_enr\<close>, \<^verbatim>\<open>fetch_enr_multi\<close>, \<^verbatim>\<open>tidy_enr\<close> and \<^verbatim>\<open>get_available_years\<close>:
  whenever the body of \<^verbatim>\<open>__init__.py\<close> runs to its end, \<^verbatim>\<open>__all__\<close> lists exactly
  these four names, each of them is bound in the package to the object \<^verbatim>\<open>core\<close> binds it
  to, and no other name of the package is bound to a function.
\<close>

theorem public_surface_is_four_functions:
  assumes ok: "pyvtschooldata_init files load = Inr (PyModule nm d)"
  shows "d ''__all__'' = Some (PyList (map PyStr inbound_call_surface)) \<and>
         (\<exists>src. load ''core'' = Inr src \<and>
            (\<forall>n \<in> set inbound_call_surface. d n = src n \<and> src n \<noteq> None)) \<and>
         (\<forall>n f. d n = Some (PyFunc f) \<longrightarrow> n \<in> set inbound_call_surface)"
proof -
  from init_namespace[OF ok] obtain src where l: "load ''core'' = Inr src"
    and n: "\<forall>n \<in> set inbound_call_surface. d n = src n \<and> src n \<noteq> None"
    and v: "d ''__version__'' = Some (PyStr ''0.1.0'')"
    and a: "d ''__all__'' = Some (PyList (map PyStr inbound_call_surface))"
    and nm: "d ''__name__'' = Some (PyStr ''pyvtschooldata'')"
    and doc: "d ''__doc__'' = Some (PyStr module_doc)"
    and c: "d ''core'' = Some (PyModule ''pyvtschooldata.core'' src)"
    and rest: "\<forall>n. n \<notin> set inbound_call_surface \<and> n \<noteq> ''__version__'' \<and> n \<noteq> ''__all__'' \<and>
          n \<noteq> ''__name__'' \<and> n \<noteq> ''__doc__'' \<and> n \<noteq> ''core'' \<longrightarrow> d n = None"
    by (elim exE conjE)
  from l n have b: "\<exists>src. load ''core'' = Inr src \<and>
            (\<forall>n \<in> set inbound_call_surface. d n = src n \<and> src n \<noteq> None)"
    by (intro exI[where x=src] conjI)
  have f: "\<forall>n f. d n = Some (PyFunc f) \<longrightarrow> n \<in> set inbound_call_surface"
  proof (intro allI impI)
    fix n f assume fn: "d n = Some (PyFunc f)"
    show "n \<in> set inbound_call_surface"
    proof (rule ccontr)
      assume nin: "n \<notin> set inbound_call_surface"
      from fn v have 1: "n \<noteq> ''__version__''" by auto
      from fn a have 2: "n \<noteq> ''__all__''" by auto
      from fn nm have 3: "n \<noteq> ''__name__''" by auto
      from fn doc have 4: "n \<noteq> ''__doc__''" by auto
      from fn c have 5: "n \<noteq> ''core''" by auto
      from rest nin 1 2 3 4 5 have "d n = None" by simp
      with fn show False by simp
    qed
  qed
  from a b f show ?thesis by (intro conjI)
qed

theorem public_surface_is_four_functions_witness:
  "\<exists>d. pyvtschooldata_init installed_files installed_load = Inr (PyModule ''pyvtschooldata'' d) \<and>
       d ''__all__'' = Some (PyList [PyStr ''fetch_enr'', PyStr ''fetch_enr_multi'',
                                     PyStr ''tidy_enr'', PyStr ''get_available_years'']) \<and>
       d ''fetch_enr'' = Some (PyFunc 0) \<and> d ''fetch_enr_multi'' = Some (PyFunc 1) \<and>
       d ''tidy_enr'' = Some (PyFunc 2) \<and> d ''get_available_years'' = Some (PyFunc 3)"
proof -
  from installed_init obtain d where
    ok: "pyvtschooldata_init installed_files installed_load = Inr (PyModule ''pyvtschooldata'' d)"
    by (rule exE)
  from public_surface_is_four_functions[OF ok] obtain src where
    a: "d ''__all__'' = Some (PyList (map PyStr inbound_call_surface))"
    and l: "installed_load ''core'' = Inr src"
    and n: "\<forall>n \<in> set inbound_call_surface. d n = src n \<and> src n \<noteq> None"
    by (elim exE conjE)
  from l have "src = core_namespace" by (simp add: installed_load_def)
  with n a have "d ''__all__'' = Some (PyList [PyStr ''fetch_enr'', PyStr ''fetch_enr_multi'',
                                     PyStr ''tidy_enr'', PyStr ''get_available_years'']) \<and>
       d ''fetch_enr'' = Some (PyFunc 0) \<and> d ''fetch_enr_multi'' = Some (PyFunc 1) \<and>
       d ''tidy_enr'' = Some (PyFunc 2) \<and> d ''get_available_years'' = Some (PyFunc 3)"
    by (simp add: inbound_call_surface_def core_namespace_def)
  with ok show ?thesis by (intro exI[where x=d]) simp
qed

text \<open>
  Claim C2. Every test of the test module checks structure only. \<^verbatim>\<open>test_import_package\<close>
  passes exactly when the package imports; \<^verbatim>\<open>test_has_fetch_enr\<close> and
  \<^verbatim>\<open>test_has_get_available_years\<close> pass exactly when it imports and binds that name to a
  callable; \<^verbatim>\<open>test_has_version\<close> passes exactly when it imports and \<^verbatim>\<open>__version__\<close> is a
  string. No test runs any fetching or transformation logic: the outcome of each of the four
  tests is the same whatever the installed functions compute (replacing every function
  object's behaviour through any \<open>h\<close> changes no outcome).
\<close>

theorem tests_check_structure_only:
  fixes load :: "'f loader" and h :: "'f \<Rightarrow> 'g"
  shows
  "(test_import_package files load = Inr () \<longleftrightarrow>
      (\<exists>m. import_pyvtschooldata files load = Inr m)) \<and>
   (test_has_fetch_enr files load = Inr () \<longleftrightarrow>
      (\<exists>nm d f. import_pyvtschooldata files load = Inr (PyModule nm d) \<and>
         d ''fetch_enr'' = Some (PyFunc f))) \<and>
   (test_has_get_available_years files load = Inr () \<longleftrightarrow>
      (\<exists>nm d f. import_pyvtschooldata files load = Inr (PyModule nm d) \<and>
         d ''get_available_years'' = Some (PyFunc f))) \<and>
   (test_has_version files load = Inr () \<longleftrightarrow>
      (\<exists>nm d s. import_pyvtschooldata files load = Inr (PyModule nm d) \<and>
         d ''__version__'' = Some (PyStr s))) \<and>
   test_import_package files (map_loader h load) = test_import_package files load \<and>
   test_has_fetch_enr files (map_loader h load) = test_has_fetch_enr files load \<and>
   test_has_get_available_years files (map_loader h load) =
     test_has_get_available_years files load \<and>
   test_has_version files (map_loader h load) = test_has_version files load"
  by (intro conjI test_import_package_iff test_has_fetch_enr_iff
      test_has_get_available_years_iff test_has_version_iff test_import_package_map
      test_has_fetch_enr_map test_has_get_available_years_map test_has_version_map)

theorem tests_check_structure_only_witness:
  "test_import_package installed_files installed_load = Inr () \<and>
   test_has_fetch_enr installed_files installed_load = Inr () \<and>
   test_has_get_available_years installed_files installed_load = Inr () \<and>
   test_has_version installed_files installed_load = Inr () \<and>
   test_has_fetch_enr installed_files (map_loader (\<lambda>n. n + 1) installed_load) = Inr () \<and>
   test_import_package (map fst repository) installed_load =
     Inl (ModuleNotFoundError ''pyvtschooldata.core'')"
proof -
  from installed_import obtain d where
    i: "import_pyvtschooldata installed_files installed_load = Inr (PyModule ''pyvtschooldata'' d)"
    and f: "d ''fetch_enr'' = Some (PyFunc 0)"
    and g: "d ''get_available_years'' = Some (PyFunc 3)"
    and v: "d ''__version__'' = Some (PyStr ''0.1.0'')"
    by (elim exE conjE)
  note t = tests_check_structure_only[of installed_files installed_load "\<lambda>n. n + 1"]
  from t i have 1: "test_import_package installed_files installed_load = Inr ()" by simp
  from t i f have 2: "test_has_fetch_enr installed_files installed_load = Inr ()" by simp
  from t i g have 3: "test_has_get_available_years installed_files installed_load = Inr ()"
    by simp
  from t i v have 4: "test_has_version installed_files installed_load = Inr ()" by simp
  from t 2 have 5: "test_has_fetch_enr installed_files (map_loader (\<lambda>n. n + 1) installed_load) =
      Inr ()"
    by simp
  have 6: "test_import_package (map fst repository) installed_load =
     Inl (ModuleNotFoundError ''pyvtschooldata.core'')"
    by (simp add: test_import_package_def repository_import)
  from 1 2 3 4 5 6 show ?thesis by (intro conjI)
qed


text \<open>
  Claim C3. The repository's source is 52 lines: \<^verbatim>\<open>__init__.py\<close> has 17 lines and the
  test module 35, counted as \<^verbatim>\<open>str.splitlines\<close> counts them (the test module's last line
  is not ended by a newline, so the two files hold 51 newline characters).
\<close>

theorem repository_has_52_lines:
  "length (splitlines init_py) = 17 \<and> length (splitlines test_pyvtschooldata_py) = 35 \<and>
   line_count repository = 52"
proof -
  have 1: "length (splitlines init_py) = 17"
    unfolding init_py_def
    by (subst splitlines_unlines_py[where t="[]", simplified]) (simp_all add: newline_def)
  have 2: "length (splitlines test_pyvtschooldata_py) = 35"
    unfolding test_pyvtschooldata_py_def
    by (subst splitlines_unlines_py) (simp_all add: newline_def)
  from 1 2 show ?thesis by (simp add: line_count_def repository_def)
qed


text \<open>
  Claim C10. Importing the package succeeds only if a submodule \<^verbatim>\<open>core\<close> is found and
  its namespace binds all four imported names. The repository's own files hold no such
  submodule, so with them alone the from-import statement, and with it the import of the
  package, raises \<open>ModuleNotFoundError\<close> for \<^verbatim>\<open>pyvtschooldata.core\<close>, which is an
  \<open>ImportError\<close>, whatever a loader would do.
\<close>

theorem import_needs_core:
  "(import_pyvtschooldata files load = Inr m \<longrightarrow>
      find_submodule files ''core'' \<and>
      (\<exists>src. load ''core'' = Inr src \<and> (\<forall>n \<in> set inbound_call_surface. src n \<noteq> None))) \<and>
   \<not> find_submodule (map fst repository) ''core'' \<and>
   import_from (map fst repository) load2 ''core''
       [''fetch_enr'', ''fetch_enr_multi'', ''tidy_enr'', ''get_available_years'']
       initial_namespace =
     Inl (ModuleNotFoundError ''pyvtschooldata.core'') \<and>
   import_pyvtschooldata (map fst repository) load2 =
     Inl (ModuleNotFoundError ''pyvtschooldata.core'') \<and>
   is_ImportError (ModuleNotFoundError ''pyvtschooldata.core'')"
proof (intro conjI impI)
  assume "import_pyvtschooldata files load = Inr m"
  then have ok: "pyvtschooldata_init files load = Inr m"
    by (simp add: import_pyvtschooldata_def split: if_splits)
  from init_needs_core[OF ok] show "find_submodule files ''core''"
    by (rule conjunct1)
  from init_needs_core[OF ok]
  show "\<exists>src. load ''core'' = Inr src \<and> (\<forall>n \<in> set inbound_call_surface. src n \<noteq> None)"
    by (rule conjunct2)
next
  show "\<not> find_submodule (map fst repository) ''core''" by (rule no_core_in_repository)
next
  show "import_from (map fst repository) load2 ''core''
       [''fetch_enr'', ''fetch_enr_multi'', ''tidy_enr'', ''get_available_years'']
       initial_namespace =
     Inl (ModuleNotFoundError ''pyvtschooldata.core'')"
    unfolding import_from_def import_submodule_def
    using no_core_in_repository by simp
next
  show "import_pyvtschooldata (map fst repository) load2 =
     Inl (ModuleNotFoundError ''pyvtschooldata.core'')"
    by (rule repository_import)
next
  show "is_ImportError (ModuleNotFoundError ''pyvtschooldata.core'')" by simp
qed

theorem import_needs_core_witness:
  "(\<exists>d. import_pyvtschooldata installed_files installed_load =
          Inr (PyModule ''pyvtschooldata'' d)) \<and>
   find_submodule installed_files ''core'' \<and>
   (\<exists>src. installed_load ''core'' = Inr src \<and> src ''fetch_enr'' \<noteq> None \<and>
      src ''fetch_enr_multi'' \<noteq> None \<and> src ''tidy_enr'' \<noteq> None \<and>
      src ''get_available_years'' \<noteq> None) \<and>
   import_pyvtschooldata (map fst repository) installed_load =
     Inl (ModuleNotFoundError ''pyvtschooldata.core'')"
proof -
  from installed_import obtain d where
    ok: "import_pyvtschooldata installed_files installed_load =
      Inr (PyModule ''pyvtschooldata'' d)"
    by (elim exE conjE)
  note t = import_needs_core[of installed_files installed_load "PyModule ''pyvtschooldata'' d"
      installed_load]
  from t[THEN conjunct1, THEN mp, OF ok]
  have both: "find_submodule installed_files ''core'' \<and>
      (\<exists>src. installed_load ''core'' = Inr src \<and>
         (\<forall>n \<in> set inbound_call_surface. src n \<noteq> None))" .
  then have f: "find_submodule installed_files ''core''" by (rule conjunct1)
  from both obtain src where l: "installed_load ''core'' = Inr src"
    and n: "\<forall>n \<in> set inbound_call_surface. src n \<noteq> None"
    by (elim conjE exE)
  from n have s: "src ''fetch_enr'' \<noteq> None \<and>
      src ''fetch_enr_multi'' \<noteq> None \<and> src ''tidy_enr'' \<noteq> None \<and>
      src ''get_available_years'' \<noteq> None"
    by (simp add: inbound_call_surface_def)
  from t have r: "import_pyvtschooldata (map fst repository) installed_load =
     Inl (ModuleNotFoundError ''pyvtschooldata.core'')"
    by (elim conjE)
  have 1: "\<exists>d. import_pyvtschooldata installed_files installed_load =
      Inr (PyModule ''pyvtschooldata'' d)"
    using ok by (intro exI[where x=d])
  from l s have 2: "\<exists>src. installed_load ''core'' = Inr src \<and> src ''fetch_enr'' \<noteq> None \<and>
      src ''fetch_enr_multi'' \<noteq> None \<and> src ''tidy_enr'' \<noteq> None \<and>
      src ''get_available_years'' \<noteq> None"
    by (intro exI[where x=src] conjI) simp_all
  from 1 f 2 r show ?thesis by (intro conjI)
qed

section \<open>The claims settled on the specification's design\<close>

text \<open>
  Claim C4. For every pair of years \<open>y1\<close> and \<open>y2\<close> that \<^verbatim>\<open>fetch_enr\<close> succeeds on,
  \<^verbatim>\<open>fetch_enr_multi([y1, y2])\<close> returns the records of both years concatenated in ascending
  year order, and the request \<^verbatim>\<open>[y2, y1]\<close> gives the same result. (When the two years are
  the same year the request is that one year, and the result holds its records once.)
\<close>

theorem multi_concatenates_in_year_order:
  assumes "fetch_enr p y1 v = Inr r1" and "fetch_enr p y2 v = Inr r2"
  shows "\<exists>res. fetch_enr_multi p [y1, y2] v = Inr res \<and>
           fetch_enr_multi p [y2, y1] v = Inr res \<and>
           records res = (if y1 < y2 then r1 @ r2 else if y2 < y1 then r2 @ r1 else r1) \<and>
           years_retrieved res = (if y1 < y2 then [y1, y2] else if y2 < y1 then [y2, y1] else [y1]) \<and>
           years_failed res = []"
  using assms
  by (auto simp: fetch_enr_multi_unfold sort_remdups_pair)

theorem multi_concatenates_in_year_order_witness:
  "\<exists>res. fetch_enr_multi demo_provider [2024, 2023] () = Inr res \<and>
         fetch_enr_multi demo_provider [2023, 2024] () = Inr res \<and>
         records res = demo_2023 @ demo_2024 \<and>
         years_retrieved res = [2023, 2024] \<and>
         years_failed res = []"
  using multi_concatenates_in_year_order[OF demo_fetch_2024 demo_fetch_2023]
  by simp

text \<open>
  Claim C5. When at least one requested year succeeds, \<^verbatim>\<open>fetch_enr_multi\<close> raises nothing:
  it returns the successful years' records, in ascending year order, the years retrieved, and
  a metadata entry with its reason for exactly the requested years that failed. When every
  requested year fails it raises \<open>NoDataError\<close> instead of returning an empty success.
\<close>

theorem partial_failure_and_no_data:
  "((\<exists>y \<in> set ys. \<exists>r. fetch_enr p y v = Inr r) \<longrightarrow>
      (\<exists>res. fetch_enr_multi p ys v = Inr res \<and>
         records res = concat (map (\<lambda>y. case fetch_enr p y v of Inl e \<Rightarrow> [] | Inr r \<Rightarrow> r)
                                    (sort (remdups ys))) \<and>
         years_retrieved res = filter (\<lambda>y. \<not> isl (fetch_enr p y v)) (sort (remdups ys)) \<and>
         (\<forall>y e. (y, e) \<in> set (years_failed res) \<longleftrightarrow> y \<in> set ys \<and> fetch_enr p y v = Inl e))) \<and>
   ((\<forall>y \<in> set ys. \<exists>e. fetch_enr p y v = Inl e) \<longrightarrow> fetch_enr_multi p ys v = Inl NoDataError)"
proof (intro conjI impI)
  assume "\<exists>y \<in> set ys. \<exists>r. fetch_enr p y v = Inr r"
  then obtain y r where "y \<in> set ys" and "fetch_enr p y v = Inr r" by (elim bexE exE)
  then have "y \<in> set ys" and "\<not> isl (fetch_enr p y v)" by simp_all
  then have "\<not> (\<forall>y \<in> set ys. isl (fetch_enr p y v))"
    by (intro notI) (drule bspec, assumption, simp)
  then show "\<exists>res. fetch_enr_multi p ys v = Inr res \<and>
         records res = concat (map (\<lambda>y. case fetch_enr p y v of Inl e \<Rightarrow> [] | Inr r \<Rightarrow> r)
                                    (sort (remdups ys))) \<and>
         years_retrieved res = filter (\<lambda>y. \<not> isl (fetch_enr p y v)) (sort (remdups ys)) \<and>
         (\<forall>y e. (y, e) \<in> set (years_failed res) \<longleftrightarrow> y \<in> set ys \<and> fetch_enr p y v = Inl e)"
    by (simp add: fetch_enr_multi_unfold failed_entries)
next
  assume "\<forall>y \<in> set ys. \<exists>e. fetch_enr p y v = Inl e"
  then have "\<forall>y \<in> set ys. isl (fetch_enr p y v)" by auto
  then show "fetch_enr_multi p ys v = Inl NoDataError"
    by (simp add: fetch_enr_multi_unfold)
qed

theorem partial_failure_and_no_data_witness:
  "(\<exists>res. fetch_enr_multi demo_provider [2024, 2022, 2023] () = Inr res \<and>
          records res = demo_2023 @ demo_2024 \<and>
          years_retrieved res = [2023, 2024] \<and>
          (2022, DataUnavailableError) \<in> set (years_failed res)) \<and>
   fetch_enr_multi demo_provider [2022, 1999] () = Inl NoDataError"
proof -
  note f = demo_fetch_2022 demo_fetch_2023 demo_fetch_2024 demo_fetch_1999
  have some: "\<exists>y \<in> set [2024, 2022, 2023]. \<exists>r. fetch_enr demo_provider y () = Inr r"
    by (simp add: f)
  have none: "\<forall>y \<in> set [2022, 1999]. \<exists>e. fetch_enr demo_provider y () = Inl e"
    by (simp add: f)
  note t1 = partial_failure_and_no_data[of "[2024, 2022, 2023]" demo_provider "()"]
  from t1[THEN conjunct1, THEN mp, OF some]
  obtain res where r: "fetch_enr_multi demo_provider [2024, 2022, 2023] () = Inr res"
    and "records res = concat (map (\<lambda>y. case fetch_enr demo_provider y () of
            Inl e \<Rightarrow> [] | Inr r \<Rightarrow> r) (sort (remdups [2024, 2022, 2023])))"
    and "years_retrieved res = filter (\<lambda>y. \<not> isl (fetch_enr demo_provider y ()))
            (sort (remdups [2024, 2022, 2023]))"
    and "\<forall>y e. (y, e) \<in> set (years_failed res) \<longleftrightarrow>
            y \<in> set [2024, 2022, 2023] \<and> fetch_enr demo_provider y () = Inl e"
    by (elim conjE exE)
  then have "records res = demo_2023 @ demo_2024 \<and> years_retrieved res = [2023, 2024] \<and>
      (2022, DataUnavailableError) \<in> set (years_failed res)"
    by (simp add: f)
  with r have 1: "\<exists>res. fetch_enr_multi demo_provider [2024, 2022, 2023] () = Inr res \<and>
          records res = demo_2023 @ demo_2024 \<and>
          years_retrieved res = [2023, 2024] \<and>
          (2022, DataUnavailableError) \<in> set (years_failed res)"
    by (intro exI[where x=res]) simp
  note t2 = partial_failure_and_no_data[of "[2022, 1999]" demo_provider "()"]
  from t2[THEN conjunct2, THEN mp, OF none]
  have 2: "fetch_enr_multi demo_provider [2022, 1999] () = Inl NoDataError" .
  from 1 2 show ?thesis by (rule conjI)
qed

text \<open>
  Claim C6. \<^verbatim>\<open>tidy_enr\<close> is pure and deterministic. A call returns the same output in
  every world, so two calls on the same raw input give the same output whatever happened
  between them, and a call leaves the world as it found it (no provider call is issued). The
  call returns records exactly when every cell is null or a non-negative number, and signals
  \<open>SchemaError\<close> otherwise. The records returned are those of the non-null cells, one each,
  sorted by school, then grade, then category: of any two records the earlier one has the
  smaller school, or the same school and the smaller grade, or the same school and grade and
  a category that is not greater.
\<close>

theorem tidy_enr_pure_and_sorted:
  fixes w w' :: "'v world"
  shows
  "fst (tidy_enr_call raw w) = fst (tidy_enr_call raw w') \<and>
   snd (tidy_enr_call raw w) = w \<and>
   fst (tidy_enr_call raw (snd (tidy_enr_call raw w))) = fst (tidy_enr_call raw w) \<and>
   ((\<exists>recs. fst (tidy_enr_call raw w) = Inr recs) \<longleftrightarrow>
      (\<forall>r \<in> set raw. \<forall>(c, x) \<in> set (raw_columns r). x = Null \<or> (\<exists>n. x = Num n \<and> 0 \<le> n))) \<and>
   ((\<forall>recs. fst (tidy_enr_call raw w) \<noteq> Inr recs) \<longrightarrow>
      fst (tidy_enr_call raw w) = Inl SchemaError) \<and>
   (\<forall>recs. fst (tidy_enr_call raw w) = Inr recs \<longrightarrow>
      sorted (map sort_order recs) \<and>
      (\<forall>i j. i < j \<and> j < length recs \<longrightarrow>
         enr_school (recs ! i) < enr_school (recs ! j) \<or>
         (enr_school (recs ! i) = enr_school (recs ! j) \<and>
            (enr_grade (recs ! i) < enr_grade (recs ! j) \<or>
             (enr_grade (recs ! i) = enr_grade (recs ! j) \<and>
                enr_category (recs ! i) \<le> enr_category (recs ! j))))) \<and>
      (\<forall>rec. rec \<in> set recs \<longleftrightarrow>
         (\<exists>r c n. r \<in> set raw \<and> (c, Num n) \<in> set (raw_columns r) \<and>
            rec = \<lparr>enr_year = raw_year r, enr_school = raw_school r, enr_grade = raw_grade r,
                   enr_category = c, enr_count = n\<rparr>)) \<and>
      length recs =
        sum_list (map (\<lambda>r. length (filter (\<lambda>(c, x). x \<noteq> Null) (raw_columns r))) raw))"
proof (intro conjI allI impI)
  show "fst (tidy_enr_call raw w) = fst (tidy_enr_call raw w')"
    by (simp add: tidy_enr_call_def)
  show "snd (tidy_enr_call raw w) = w"
    by (simp add: tidy_enr_call_def)
  show "fst (tidy_enr_call raw (snd (tidy_enr_call raw w))) = fst (tidy_enr_call raw w)"
    by (simp add: tidy_enr_call_def)
  show "(\<exists>recs. fst (tidy_enr_call raw w) = Inr recs) \<longleftrightarrow>
      (\<forall>r \<in> set raw. \<forall>(c, x) \<in> set (raw_columns r). x = Null \<or> (\<exists>n. x = Num n \<and> 0 \<le> n))"
  proof
    assume "\<exists>recs. fst (tidy_enr_call raw w) = Inr recs"
    then obtain recs where "tidy_enr raw = Inr recs" by (auto simp: tidy_enr_call_def)
    then show "\<forall>r \<in> set raw. \<forall>(c, x) \<in> set (raw_columns r).
        x = Null \<or> (\<exists>n. x = Num n \<and> 0 \<le> n)"
      by (rule tidy_enr_Inr(2))
  next
    assume "\<forall>r \<in> set raw. \<forall>(c, x) \<in> set (raw_columns r).
        x = Null \<or> (\<exists>n. x = Num n \<and> 0 \<le> n)"
    from tidy_enr_ok[OF this] show "\<exists>recs. fst (tidy_enr_call raw w) = Inr recs"
      by (simp add: tidy_enr_call_def)
  qed
next
  assume no: "\<forall>recs. fst (tidy_enr_call raw w) \<noteq> Inr recs"
  show "fst (tidy_enr_call raw w) = Inl SchemaError"
  proof (cases "tidy_enr raw")
    case (Inl e)
    with tidy_enr_Inl[OF Inl] show ?thesis by (simp add: tidy_enr_call_def)
  next
    case (Inr recs)
    with no show ?thesis by (simp add: tidy_enr_call_def)
  qed
next
  fix recs assume "fst (tidy_enr_call raw w) = Inr recs"
  then have "tidy_enr raw = Inr recs" by (simp add: tidy_enr_call_def)
  then show "sorted (map sort_order recs)" by (rule tidy_enr_sorted)
next
  fix recs i j
  assume "fst (tidy_enr_call raw w) = Inr recs" and ij: "i < j \<and> j < length recs"
  then have "tidy_enr raw = Inr recs" by (simp add: tidy_enr_call_def)
  then have s: "sorted (map sort_order recs)" by (rule tidy_enr_sorted)
  from ij have "i < j" and "j < length (map sort_order recs)" by simp_all
  from sorted_triples_nth[OF s this] ij
  show "enr_school (recs ! i) < enr_school (recs ! j) \<or>
         (enr_school (recs ! i) = enr_school (recs ! j) \<and>
            (enr_grade (recs ! i) < enr_grade (recs ! j) \<or>
             (enr_grade (recs ! i) = enr_grade (recs ! j) \<and>
                enr_category (recs ! i) \<le> enr_category (recs ! j))))"
    by (simp add: sort_order_def)
next
  fix recs rec assume "fst (tidy_enr_call raw w) = Inr recs"
  then have "tidy_enr raw = Inr recs" by (simp add: tidy_enr_call_def)
  then show "rec \<in> set recs \<longleftrightarrow>
         (\<exists>r c n. r \<in> set raw \<and> (c, Num n) \<in> set (raw_columns r) \<and>
            rec = \<lparr>enr_year = raw_year r, enr_school = raw_school r, enr_grade = raw_grade r,
                   enr_category = c, enr_count = n\<rparr>)"
    by (rule tidy_enr_members)
next
  fix recs assume "fst (tidy_enr_call raw w) = Inr recs"
  then have "tidy_enr raw = Inr recs" by (simp add: tidy_enr_call_def)
  then show "length recs =
        sum_list (map (\<lambda>r. length (filter (\<lambda>(c, x). x \<noteq> Null) (raw_columns r))) raw)"
    by (rule tidy_enr_length)
qed

theorem tidy_enr_pure_and_sorted_witness:
  "fst (tidy_enr_call demo_raw_2023 demo_world) = Inr demo_2023 \<and>
   fst (tidy_enr_call demo_raw_2023 (snd (source_adapter_call 2023 () demo_world))) =
     Inr demo_2023 \<and>
   calls (snd (source_adapter_call 2023 () demo_world)) = [(2023, ())] \<and>
   calls (snd (tidy_enr_call demo_raw_2023 demo_world)) = [] \<and>
   sorted (map sort_order demo_2023) \<and>
   length demo_2023 = 3 \<and>
   enr_school (demo_2023 ! 0) = enr_school (demo_2023 ! 1) \<and>
   enr_grade (demo_2023 ! 0) = enr_grade (demo_2023 ! 1) \<and>
   enr_category (demo_2023 ! 0) \<le> enr_category (demo_2023 ! 1)"
proof -
  note t = tidy_enr_pure_and_sorted[of demo_raw_2023 demo_world
      "snd (source_adapter_call 2023 () demo_world)"]
  have a: "fst (tidy_enr_call demo_raw_2023 demo_world) = Inr demo_2023"
    by (simp add: tidy_enr_call_def demo_tidy_2023)
  from t have "fst (tidy_enr_call demo_raw_2023 demo_world) =
      fst (tidy_enr_call demo_raw_2023 (snd (source_adapter_call 2023 () demo_world)))"
    by (rule conjunct1)
  with a have b: "fst (tidy_enr_call demo_raw_2023
      (snd (source_adapter_call 2023 () demo_world))) = Inr demo_2023"
    by simp
  have c: "calls (snd (source_adapter_call 2023 () demo_world)) = [(2023, ())]"
    by (simp add: source_adapter_call_def demo_world_def)
  from t have "snd (tidy_enr_call demo_raw_2023 demo_world) = demo_world"
    by (elim conjE)
  then have d: "calls (snd (tidy_enr_call demo_raw_2023 demo_world)) = []"
    by (simp add: demo_world_def)
  from t have "\<forall>recs. fst (tidy_enr_call demo_raw_2023 demo_world) = Inr recs \<longrightarrow>
      sorted (map sort_order recs) \<and>
      (\<forall>i j. i < j \<and> j < length recs \<longrightarrow>
         enr_school (recs ! i) < enr_school (recs ! j) \<or>
         (enr_school (recs ! i) = enr_school (recs ! j) \<and>
            (enr_grade (recs ! i) < enr_grade (recs ! j) \<or>
             (enr_grade (recs ! i) = enr_grade (recs ! j) \<and>
                enr_category (recs ! i) \<le> enr_category (recs ! j))))) \<and>
      (\<forall>rec. rec \<in> set recs \<longleftrightarrow>
         (\<exists>r c n. r \<in> set demo_raw_2023 \<and> (c, Num n) \<in> set (raw_columns r) \<and>
            rec = \<lparr>enr_year = raw_year r, enr_school = raw_school r, enr_grade = raw_grade r,
                   enr_category = c, enr_count = n\<rparr>)) \<and>
      length recs =
        sum_list (map (\<lambda>r. length (filter (\<lambda>(c, x). x \<noteq> Null) (raw_columns r)))
          demo_raw_2023)"
    by (elim conjE)
  note u = this[rule_format, OF a]
  from u have s: "sorted (map sort_order demo_2023)"
    by (rule conjunct1)
  from u[THEN conjunct2, THEN conjunct1]
  have n: "\<forall>i j. i < j \<and> j < length demo_2023 \<longrightarrow>
         enr_school (demo_2023 ! i) < enr_school (demo_2023 ! j) \<or>
         (enr_school (demo_2023 ! i) = enr_school (demo_2023 ! j) \<and>
            (enr_grade (demo_2023 ! i) < enr_grade (demo_2023 ! j) \<or>
             (enr_grade (demo_2023 ! i) = enr_grade (demo_2023 ! j) \<and>
                enr_category (demo_2023 ! i) \<le> enr_category (demo_2023 ! j))))" .
  from u[THEN conjunct2, THEN conjunct2, THEN conjunct2]
  have l: "length demo_2023 =
        sum_list (map (\<lambda>r. length (filter (\<lambda>(c, x). x \<noteq> Null) (raw_columns r)))
          demo_raw_2023)" .
  from l have l3: "length demo_2023 = 3" by (simp add: demo_raw_2023_def)
  have e: "enr_school (demo_2023 ! 0) = enr_school (demo_2023 ! 1) \<and>
   enr_grade (demo_2023 ! 0) = enr_grade (demo_2023 ! 1)"
    by (simp add: demo_2023_def)
  from n have "0 < (1::nat) \<and> 1 < length demo_2023 \<longrightarrow>
         enr_school (demo_2023 ! 0) < enr_school (demo_2023 ! 1) \<or>
         (enr_school (demo_2023 ! 0) = enr_school (demo_2023 ! 1) \<and>
            (enr_grade (demo_2023 ! 0) < enr_grade (demo_2023 ! 1) \<or>
             (enr_grade (demo_2023 ! 0) = enr_grade (demo_2023 ! 1) \<and>
                enr_category (demo_2023 ! 0) \<le> enr_category (demo_2023 ! 1))))"
    by (elim allE)
  with l3 e have f: "enr_category (demo_2023 ! 0) \<le> enr_category (demo_2023 ! 1)"
    by simp
  from a b c d s l3 e f show ?thesis by simp
qed

end
